theory Spec2Isabelle
  imports Main "HOL-Library.Word"
begin

unbundle bit_operations_syntax

section \<open>Python values used by \<^verbatim>\<open>voice_stream/audio/audio_webm.py\<close>\<close>

text \<open>
  A \<^verbatim>\<open>bytes\<close> object is a list of 8-bit words; reading one element gives a Python
  \<^verbatim>\<open>int\<close> in 0..255. Python integers are unbounded, so every offset, cursor and decoded
  value is an \<open>int\<close>. The exceptions the module can raise are values of \<open>error\<close>.
\<close>

type_synonym byte = "8 word"
type_synonym bytes = "byte list"

datatype error = IndexError | TypeError | ValueError | AssertionError

text \<open>\<^verbatim>\<open>data[i]\<close>: a negative index counts from the end, out of range raises.\<close>

definition py_getitem :: "bytes \<Rightarrow> int \<Rightarrow> error + int" where
  "py_getitem data i =
     (let n = int (length data) in
      if 0 \<le> i \<and> i < n then Inr (uint (data ! nat i))
      else if - n \<le> i \<and> i < 0 then Inr (uint (data ! nat (n + i)))
      else Inl IndexError)"

text \<open>Slice bounds: a negative bound is taken from the end, then clamped to \<open>[0, len]\<close>.\<close>

definition py_bound :: "nat \<Rightarrow> int \<Rightarrow> nat" where
  "py_bound n i = (if i < 0 then nat (max (i + int n) 0) else min (nat i) n)"

text \<open>\<^verbatim>\<open>xs[i:j]\<close>, \<^verbatim>\<open>xs[:j]\<close> and \<^verbatim>\<open>xs[i:]\<close>.\<close>

definition py_slice :: "'a list \<Rightarrow> int \<Rightarrow> int \<Rightarrow> 'a list" where
  "py_slice xs i j =
     (let a = py_bound (length xs) i; b = py_bound (length xs) j
      in take (b - a) (drop a xs))"

definition py_slice_to :: "'a list \<Rightarrow> int \<Rightarrow> 'a list" where
  "py_slice_to xs j = take (py_bound (length xs) j) xs"

definition py_slice_from :: "'a list \<Rightarrow> int \<Rightarrow> 'a list" where
  "py_slice_from xs i = drop (py_bound (length xs) i) xs"

text \<open>
  \<^verbatim>\<open>data.rfind(b, 0, e)\<close> for a one-byte pattern: the highest index below the
  (slice-normalised) bound \<open>e\<close> holding \<open>b\<close>, or \<open>-1\<close>.
\<close>

fun last_index_below :: "bytes \<Rightarrow> byte \<Rightarrow> nat \<Rightarrow> int" where
  "last_index_below data b 0 = - 1"
| "last_index_below data b (Suc k) =
     (if data ! k = b then int k else last_index_below data b k)"

definition py_rfind :: "bytes \<Rightarrow> byte \<Rightarrow> int \<Rightarrow> int" where
  "py_rfind data b e = last_index_below data b (py_bound (length data) e)"

section \<open>\<^verbatim>\<open>read_ebml_size\<close>\<close>

text \<open>
  The loop \<^verbatim>\<open>for bit in range(7, -1, -1)\<close> that counts the leading zero bits of the
  first byte, leaving at the first set bit.
\<close>

definition bit_range :: "nat list" where
  "bit_range = [7, 6, 5, 4, 3, 2, 1, 0]"

fun count_num_bytes :: "int \<Rightarrow> nat list \<Rightarrow> int \<Rightarrow> int" where
  "count_num_bytes first_byte [] num_bytes = num_bytes"
| "count_num_bytes first_byte (bit_no # bits) num_bytes =
     (if (drop_bit bit_no first_byte) AND 1 \<noteq> 0 then num_bytes
      else count_num_bytes first_byte bits (num_bytes + 1))"

text \<open>
  The loop \<^verbatim>\<open>for i, byte in enumerate(size_bytes)\<close>: the first byte is masked with
  \<^verbatim>\<open>0xFF >> (num_bytes + 1)\<close>, every later byte is shifted in below the value so far.
\<close>

fun size_value_loop :: "int \<Rightarrow> (nat \<times> int) list \<Rightarrow> int \<Rightarrow> int" where
  "size_value_loop num_bytes [] size_value = size_value"
| "size_value_loop num_bytes ((i, byte) # rest) size_value =
     size_value_loop num_bytes rest
       (if i = 0 then byte AND (drop_bit (nat (num_bytes + 1)) 255)
        else (push_bit 8 size_value) OR byte)"

text \<open>
  The result is the pair \<^verbatim>\<open>(value, num_bytes)\<close>, where the value is \<^verbatim>\<open>None\<close> when the
  field is wider than \<^verbatim>\<open>max_bytes\<close> or runs past the end of the data.
\<close>

definition read_ebml_size :: "bytes \<Rightarrow> int \<Rightarrow> int \<Rightarrow> error + (int option \<times> int)" where
  "read_ebml_size data position max_bytes =
     (case py_getitem data position of
        Inl e \<Rightarrow> Inl e
      | Inr first_byte \<Rightarrow>
          (let num_bytes = count_num_bytes first_byte bit_range 1 in
           if num_bytes > max_bytes then Inr (None, num_bytes)
           else if num_bytes = 1 then Inr (Some (first_byte AND 127), 1)
           else if int (length data) < position + num_bytes then Inr (None, num_bytes)
           else
             (let size_bytes = py_slice data position (position + num_bytes) in
              Inr (Some (size_value_loop num_bytes (enumerate 0 (map uint size_bytes)) 0),
                   num_bytes))))"

section \<open>\<^verbatim>\<open>find_last_webm_simple_block\<close>\<close>

text \<open>
  The function returns either the bare integer \<^verbatim>\<open>-1\<close> or the pair
  \<^verbatim>\<open>(pos, size + 1 + size_bytes)\<close>.
\<close>

datatype located = Minus_One | Tuple int int

text \<open>
  The checks made on one candidate position (the body of the \<^verbatim>\<open>while\<close> loop after the
  search): \<open>Inr (Some r)\<close> is \<^verbatim>\<open>return r\<close>, \<open>Inr None\<close> falls through to
  \<^verbatim>\<open>pos -= 1\<close>.
\<close>

definition check_candidate :: "bytes \<Rightarrow> int \<Rightarrow> int \<Rightarrow> error + located option" where
  "check_candidate data l pos =
     (if pos + 5 < l then
        (case read_ebml_size data (pos + 1) 2 of
           Inl e \<Rightarrow> Inl e
         | Inr (None, size_bytes) \<Rightarrow> Inr None
         | Inr (Some size_v, size_bytes) \<Rightarrow>
             (case read_ebml_size data (pos + 1 + size_bytes) 2 of
                Inl e \<Rightarrow> Inl e
              | Inr (None, track_bytes) \<Rightarrow> Inr None
              | Inr (Some track, track_bytes) \<Rightarrow>
                  if track < 5 then
                    (let flag_pos = pos + 1 + size_bytes + track_bytes + 2 in
                     if flag_pos < l then
                       (case py_getitem data (pos + 1 + size_bytes + track_bytes + 2) of
                          Inl e \<Rightarrow> Inl e
                        | Inr flag \<Rightarrow>
                            if flag = 128 \<or> flag = 0
                            then Inr (Some (Tuple pos (size_v + 1 + size_bytes)))
                            else Inr None)
                     else Inr None)
                  else Inr None))
      else Inr None)"

text \<open>
  The \<^verbatim>\<open>while True\<close> loop. Nothing in it bounds the number of rounds, so the model is a
  partial function: \<open>None\<close> is a loop that never returns.
\<close>

partial_function (option) find_loop :: "bytes \<Rightarrow> int \<Rightarrow> int \<Rightarrow> (error + located) option" where
  "find_loop data l pos =
     (let pos' = py_rfind data 163 pos in
      if pos' = - 1 then Some (Inr Minus_One)
      else
        (case check_candidate data l pos' of
           Inl e \<Rightarrow> Some (Inl e)
         | Inr (Some r) \<Rightarrow> Some (Inr r)
         | Inr None \<Rightarrow> find_loop data l (pos' - 1)))"

declare find_loop.simps [code]

text \<open>\<^verbatim>\<open>l = end or len(data)\<close>: both \<^verbatim>\<open>None\<close> and \<^verbatim>\<open>0\<close> are falsy.\<close>

definition search_end :: "bytes \<Rightarrow> int option \<Rightarrow> int" where
  "search_end data end_arg =
     (case end_arg of
        None \<Rightarrow> int (length data)
      | Some e \<Rightarrow> if e = 0 then int (length data) else e)"

definition find_last_webm_simple_block :: "bytes \<Rightarrow> int option \<Rightarrow> (error + located) option" where
  "find_last_webm_simple_block data end_arg =
     (let l = search_end data end_arg in find_loop data l l)"

section \<open>\<^verbatim>\<open>split_webm_buffer\<close>\<close>

text \<open>
  A packet of the demuxing library, with the four attributes the function reads. The size
  of a packet is a byte count, hence a natural number; either timestamp may be \<^verbatim>\<open>None\<close>.
\<close>

record packet =
  is_keyframe :: bool
  size_pkt :: nat
  dts :: "int option"
  pts :: "int option"

text \<open>
  The loop over \<^verbatim>\<open>input_container.demux(audio_stream)\<close>. The state is
  \<^verbatim>\<open>(packets_since_last_keyframe, byte_ptr, key_frame_start)\<close>.
\<close>

fun scan_packets ::
  "int \<Rightarrow> packet list \<Rightarrow> packet list \<times> int \<times> int \<Rightarrow> packet list \<times> int \<times> int" where
  "scan_packets split_before [] st = st"
| "scan_packets split_before (p # rest) (packets_since_last_keyframe, byte_ptr, key_frame_start) =
     (if is_keyframe p \<and> byte_ptr < split_before
      then scan_packets split_before rest ([] @ [p], byte_ptr + int (size_pkt p), byte_ptr)
      else scan_packets split_before rest
             (packets_since_last_keyframe @ [p], byte_ptr + int (size_pkt p), key_frame_start))"

definition select_packets :: "int \<Rightarrow> packet list \<Rightarrow> packet list \<times> int \<times> int" where
  "select_packets split_before packets = scan_packets split_before packets ([], 0, - 1)"

definition key_frame_start :: "int \<Rightarrow> packet list \<Rightarrow> int" where
  "key_frame_start split_before packets = snd (snd (select_packets split_before packets))"

text \<open>\<^verbatim>\<open>a - b\<close> on two optional integers: \<^verbatim>\<open>None\<close> on either side raises \<^verbatim>\<open>TypeError\<close>.\<close>

definition py_sub :: "int option \<Rightarrow> int option \<Rightarrow> error + int option" where
  "py_sub a b =
     (case a of
        None \<Rightarrow> Inl TypeError
      | Some x \<Rightarrow> (case b of None \<Rightarrow> Inl TypeError | Some y \<Rightarrow> Inr (Some (x - y))))"

text \<open>
  The loop that writes the packets: with \<^verbatim>\<open>adjust_timestamps\<close> and a packet whose
  \<^verbatim>\<open>dts\<close> is not \<^verbatim>\<open>None\<close>, both \<^verbatim>\<open>dts\<close> and \<^verbatim>\<open>pts\<close> are rewritten. The result is the list
  of packets handed to \<^verbatim>\<open>output_container.mux\<close>, in order.
\<close>

fun rebase_loop :: "bool \<Rightarrow> int option \<Rightarrow> int option \<Rightarrow> packet list \<Rightarrow> error + packet list" where
  "rebase_loop adjust_timestamps dts_start pts_start [] = Inr []"
| "rebase_loop adjust_timestamps dts_start pts_start (p # rest) =
     (if adjust_timestamps \<and> dts p \<noteq> None then
        (case py_sub (dts p) dts_start of
           Inl e \<Rightarrow> Inl e
         | Inr d \<Rightarrow>
             (case py_sub (pts p) pts_start of
                Inl e \<Rightarrow> Inl e
              | Inr q \<Rightarrow>
                  (case rebase_loop adjust_timestamps dts_start pts_start rest of
                     Inl e \<Rightarrow> Inl e
                   | Inr out \<Rightarrow> Inr (p\<lparr>dts := d, pts := q\<rparr> # out))))
      else
        (case rebase_loop adjust_timestamps dts_start pts_start rest of
           Inl e \<Rightarrow> Inl e
         | Inr out \<Rightarrow> Inr (p # out)))"

text \<open>
  \<^verbatim>\<open>dts_start = packets_since_last_keyframe[0].dts\<close> and the same for \<^verbatim>\<open>pts\<close>, then the
  loop; indexing an empty list raises \<^verbatim>\<open>IndexError\<close>.
\<close>

definition rebase_packets :: "bool \<Rightarrow> packet list \<Rightarrow> error + packet list" where
  "rebase_packets adjust_timestamps packets_since_last_keyframe =
     (case packets_since_last_keyframe of
        [] \<Rightarrow> Inl IndexError
      | first # _ \<Rightarrow>
          rebase_loop adjust_timestamps (dts first) (pts first) packets_since_last_keyframe)"

text \<open>
  The end of the function: the second search, over the bytes written by the muxer, the
  assertion, and the concatenation with \<^verbatim>\<open>extra_bytes\<close>. Unpacking the bare \<^verbatim>\<open>-1\<close> into
  two names raises \<^verbatim>\<open>TypeError\<close>.
\<close>

definition cut_cues :: "bytes \<Rightarrow> bytes \<Rightarrow> (error + bytes) option" where
  "cut_cues raw extra_bytes =
     (case find_last_webm_simple_block raw None of
        None \<Rightarrow> None
      | Some (Inl e) \<Rightarrow> Some (Inl e)
      | Some (Inr Minus_One) \<Rightarrow> Some (Inl TypeError)
      | Some (Inr (Tuple pos size_v)) \<Rightarrow>
          if int (length raw) \<ge> pos + size_v
          then Some (Inr (py_slice_to raw (pos + size_v) @ extra_bytes))
          else Some (Inl AssertionError))"

text \<open>
  The library \<^verbatim>\<open>av\<close> is outside the module. It enters as two parameters: \<open>demux\<close> gives the
  packets of the audio stream of a container, or \<open>None\<close> when the container has no audio
  stream; \<open>mux\<close> gives the bytes of the closed output container, written with the input's
  stream as template.
\<close>

definition split_webm_buffer ::
  "(bytes \<Rightarrow> packet list option) \<Rightarrow> (bytes \<Rightarrow> packet list \<Rightarrow> bytes) \<Rightarrow>
   bytes \<Rightarrow> int \<Rightarrow> bool \<Rightarrow> (error + bytes) option" where
  "split_webm_buffer demux mux audio split_before adjust_timestamps =
     (case find_last_webm_simple_block audio None of
        None \<Rightarrow> None
      | Some (Inl e) \<Rightarrow> Some (Inl e)
      | Some (Inr Minus_One) \<Rightarrow> Some (Inl TypeError)
      | Some (Inr (Tuple pos size_v)) \<Rightarrow>
          (let last_start = (if int (length audio) = pos + size_v then pos + size_v else pos);
               usable_audio = py_slice_to audio last_start;
               extra_bytes = py_slice_from audio last_start
           in case demux usable_audio of
                None \<Rightarrow> Some (Inl ValueError)
              | Some packets \<Rightarrow>
                  (case select_packets split_before packets of
                     (packets_since_last_keyframe, byte_ptr, kfs) \<Rightarrow>
                       (case rebase_packets adjust_timestamps packets_since_last_keyframe of
                          Inl e \<Rightarrow> Some (Inl e)
                        | Inr written \<Rightarrow> cut_cues (mux usable_audio written) extra_bytes))))"

section \<open>The size field as the format defines it\<close>

text \<open>
  For comparison with \<open>size_value_loop\<close>: an EBML size field of \<open>num_bytes\<close> bytes has
  \<open>num_bytes\<close> marker bits at the top of its first byte; the other bits of the first byte
  and all bits of the later bytes are the value, most significant byte first.
\<close>

definition spec_size_value :: "nat \<Rightarrow> int list \<Rightarrow> int" where
  "spec_size_value num_bytes bs =
     (case bs of
        [] \<Rightarrow> 0
      | b0 # later \<Rightarrow> foldl (\<lambda>v b. v * 256 + b) (b0 AND drop_bit num_bytes 255) later)"

text \<open>
  Whether some packet is a keyframe that starts at a byte offset below \<open>split_before\<close>,
  the offsets counted from \<open>byte_ptr\<close>.
\<close>

fun keyframe_before :: "int \<Rightarrow> packet list \<Rightarrow> int \<Rightarrow> bool" where
  "keyframe_before split_before [] byte_ptr = False"
| "keyframe_before split_before (p # rest) byte_ptr =
     ((is_keyframe p \<and> byte_ptr < split_before)
      \<or> keyframe_before split_before rest (byte_ptr + int (size_pkt p)))"

section \<open>Facts about the search and the checks on a candidate\<close>

lemma py_bound_le: "py_bound n i \<le> n"
  by (auto simp: py_bound_def max_def)

lemma last_index_below_found:
  "last_index_below data b k \<noteq> - 1 \<Longrightarrow>
     0 \<le> last_index_below data b k \<and> last_index_below data b k < int k
     \<and> data ! nat (last_index_below data b k) = b"
  by (induction k) (auto split: if_splits)

lemma py_rfind_found:
  assumes "py_rfind data b e \<noteq> - 1"
  shows "0 \<le> py_rfind data b e" and "py_rfind data b e < int (length data)"
    and "data ! nat (py_rfind data b e) = b"
proof -
  let ?k = "py_bound (length data) e"
  from assms have "last_index_below data b ?k \<noteq> - 1" by (simp add: py_rfind_def)
  from last_index_below_found[OF this] py_bound_le[of "length data" e]
  show "0 \<le> py_rfind data b e" and "py_rfind data b e < int (length data)"
    and "data ! nat (py_rfind data b e) = b"
    by (simp_all add: py_rfind_def)
qed

lemma count_num_bytes_ge: "n \<le> count_num_bytes fb bits n"
proof (induction bits arbitrary: n)
  case Nil
  show ?case by simp
next
  case (Cons a bits)
  from Cons.IH[of "n + 1"] have "n \<le> count_num_bytes fb bits (n + 1)" by linarith
  then show ?case by simp
qed

lemma read_ebml_size_width:
  "read_ebml_size data position max_bytes = Inr (v, nb) \<Longrightarrow> 1 \<le> nb"
  using count_num_bytes_ge[of 1 _ bit_range]
  by (auto simp: read_ebml_size_def Let_def split: sum.splits if_splits)

lemma py_getitem_in_range:
  "py_getitem data i = Inr x \<Longrightarrow> 0 \<le> i \<Longrightarrow> i < int (length data) \<and> x = uint (data ! nat i)"
  by (auto simp: py_getitem_def Let_def split: if_splits)

lemma check_candidate_Some:
  assumes "check_candidate data l pos = Inr (Some r)"
  shows "\<exists>size_v size_bytes track track_bytes flag.
           pos + 5 < l
         \<and> read_ebml_size data (pos + 1) 2 = Inr (Some size_v, size_bytes)
         \<and> read_ebml_size data (pos + 1 + size_bytes) 2 = Inr (Some track, track_bytes)
         \<and> track < 5
         \<and> pos + 1 + size_bytes + track_bytes + 2 < l
         \<and> py_getitem data (pos + 1 + size_bytes + track_bytes + 2) = Inr flag
         \<and> (flag = 128 \<or> flag = 0)
         \<and> r = Tuple pos (size_v + 1 + size_bytes)"
  using assms
  by (auto simp: check_candidate_def Let_def split: if_splits sum.splits option.splits prod.splits)

lemma find_loop_Tuple:
  assumes "find_loop data l pos = Some res"
  shows "\<forall>p w. res = Inr (Tuple p w) \<longrightarrow>
           0 \<le> p \<and> p < int (length data) \<and> data ! nat p = 163
           \<and> check_candidate data l p = Inr (Some (Tuple p w))"
proof (rule find_loop.raw_induct
    [where P = "\<lambda>d e c r. \<forall>p w. r = Inr (Tuple p w) \<longrightarrow>
           0 \<le> p \<and> p < int (length d) \<and> d ! nat p = 163
           \<and> check_candidate d e p = Inr (Some (Tuple p w))", OF _ assms])
  fix f :: "bytes \<Rightarrow> int \<Rightarrow> int \<Rightarrow> (error + located) option" and d e c r
  assume IH: "\<And>d e c r. f d e c = Some r \<Longrightarrow> \<forall>p w. r = Inr (Tuple p w) \<longrightarrow>
           0 \<le> p \<and> p < int (length d) \<and> d ! nat p = 163
           \<and> check_candidate d e p = Inr (Some (Tuple p w))"
    and eq: "(let pos' = py_rfind d 163 c in
      if pos' = - 1 then Some (Inr Minus_One)
      else
        (case check_candidate d e pos' of
           Inl e \<Rightarrow> Some (Inl e)
         | Inr (Some r) \<Rightarrow> Some (Inr r)
         | Inr None \<Rightarrow> f d e (pos' - 1))) = Some r"
  show "\<forall>p w. r = Inr (Tuple p w) \<longrightarrow>
           0 \<le> p \<and> p < int (length d) \<and> d ! nat p = 163
           \<and> check_candidate d e p = Inr (Some (Tuple p w))"
  proof (intro allI impI)
    fix p w assume r: "r = Inr (Tuple p w)"
    let ?c = "py_rfind d 163 c"
    show "0 \<le> p \<and> p < int (length d) \<and> d ! nat p = 163
           \<and> check_candidate d e p = Inr (Some (Tuple p w))"
    proof (cases "?c = - 1")
      case True
      with eq r show ?thesis by simp
    next
      case False
      note found = py_rfind_found[OF False]
      show ?thesis
      proof (cases "check_candidate d e ?c")
        case (Inl err)
        with eq False r show ?thesis by simp
      next
        case (Inr o1)
        show ?thesis
        proof (cases o1)
          case None
          with eq False Inr have "f d e (?c - 1) = Some r" by simp
          from IH[OF this] r show ?thesis by simp
        next
          case (Some t)
          with eq False Inr r have t: "t = Tuple p w" by simp
          from check_candidate_Some[of d e ?c t] Inr Some t have "p = ?c" by auto
          with found Inr Some t show ?thesis by simp
        qed
      qed
    qed
  qed
qed

lemma find_last_Tuple:
  assumes "find_last_webm_simple_block data end_arg = Some (Inr (Tuple p w))"
  shows "0 \<le> p" and "p < int (length data)" and "data ! nat p = 163"
    and "check_candidate data (search_end data end_arg) p = Inr (Some (Tuple p w))"
proof -
  from assms
  have "find_loop data (search_end data end_arg) (search_end data end_arg) = Some (Inr (Tuple p w))"
    by (simp add: find_last_webm_simple_block_def Let_def)
  from find_loop_Tuple[OF this]
  show "0 \<le> p" and "p < int (length data)" and "data ! nat p = 163"
    and "check_candidate data (search_end data end_arg) p = Inr (Some (Tuple p w))"
    by simp_all
qed

section \<open>The located element\<close>



text \<open>
  Claim C3, as the code has it. The flag byte that is compared with \<open>0x80\<close> and \<open>0x00\<close>
  is not the byte right after the track-number field: the code skips two bytes, and reads
  the byte at \<open>p + 1 + size_bytes + track_bytes + 2\<close>. In the buffer below the element at
  0 is accepted although the byte right after its track field, at index 3, is \<open>0x11\<close>.
\<close>

theorem flag_next_to_track_counterexample:
  "find_last_webm_simple_block [163, 133, 129, 17, 34, 128] None = Some (Inr (Tuple 0 7))
   \<and> read_ebml_size [163, 133, 129, 17, 34, 128] (0 + 1) 2 = Inr (Some 5, 1)
   \<and> read_ebml_size [163, 133, 129, 17, 34, 128] (0 + 1 + 1) 2 = Inr (Some 1, 1)
   \<and> py_getitem [163, 133, 129, 17, 34, 128] (0 + 1 + 1 + 1) = Inr 17"
  by code_simp

text \<open>
  Claim C3, amended: a pair \<open>(p, w)\<close> is returned only if the byte two positions after
  the end of the track-number field, at \<open>p + 1 + size_bytes + track_bytes + 2\<close>, is
  \<open>0x80\<close> or \<open>0x00\<close>.
\<close>

theorem accepted_flag_two_after_track:
  assumes "find_last_webm_simple_block data end_arg = Some (Inr (Tuple p w))"
  shows "\<exists>size_v size_bytes track track_bytes flag.
             read_ebml_size data (p + 1) 2 = Inr (Some size_v, size_bytes)
           \<and> read_ebml_size data (p + 1 + size_bytes) 2 = Inr (Some track, track_bytes)
           \<and> py_getitem data (p + 1 + size_bytes + track_bytes + 2) = Inr flag
           \<and> (flag = 128 \<or> flag = 0)"
proof -
  note loc = find_last_Tuple[OF assms]
  from check_candidate_Some[OF loc(4)] show ?thesis by blast
qed

theorem accepted_flag_two_after_track_witness:
  "find_last_webm_simple_block [7, 163, 130, 129, 0, 0, 0, 9] (Some 7) = Some (Inr (Tuple 1 4))
   \<and> (\<exists>size_v size_bytes track track_bytes flag.
         read_ebml_size [7, 163, 130, 129, 0, 0, 0, 9] (1 + 1) 2 = Inr (Some size_v, size_bytes)
       \<and> read_ebml_size [7, 163, 130, 129, 0, 0, 0, 9] (1 + 1 + size_bytes) 2
           = Inr (Some track, track_bytes)
       \<and> py_getitem [7, 163, 130, 129, 0, 0, 0, 9] (1 + 1 + size_bytes + track_bytes + 2)
           = Inr flag
       \<and> (flag = 128 \<or> flag = 0))"
proof -
  have h: "find_last_webm_simple_block [7, 163, 130, 129, 0, 0, 0, 9] (Some 7)
           = Some (Inr (Tuple 1 4))"
    by code_simp
  from accepted_flag_two_after_track[OF h] h show ?thesis by blast
qed

text \<open>
  Claim C4, as the code has it. The returned width is computed from the decoded size
  field and is not compared with the length of the buffer: in the six-byte buffer below
  the element at 0 announces 127 bytes of content, and the pair \<open>(0, 129)\<close> is returned.
\<close>

theorem located_end_inside_buffer_counterexample:
  "find_last_webm_simple_block [163, 255, 129, 0, 0, 0] None = Some (Inr (Tuple 0 129))
   \<and> \<not> (0 + 129 \<le> int (length [163, 255, 129, 0, 0, 0 :: byte]))"
  by code_simp

text \<open>
  Claim C4, amended: whenever a pair \<open>(p, w)\<close> is returned, the start of the element
  lies inside the buffer and before the search end, \<open>p + 5\<close> being below both; nothing
  is promised about \<open>p + w\<close>.
\<close>

theorem located_start_inside_buffer:
  assumes "find_last_webm_simple_block data end_arg = Some (Inr (Tuple p w))"
  shows "0 \<le> p \<and> p + 5 < int (length data) \<and> p + 5 < search_end data end_arg"
proof -
  note loc = find_last_Tuple[OF assms]
  from check_candidate_Some[OF loc(4)]
  obtain size_v size_bytes track track_bytes flag where
    e: "p + 5 < search_end data end_arg"
    and s: "read_ebml_size data (p + 1) 2 = Inr (Some size_v, size_bytes)"
    and t: "read_ebml_size data (p + 1 + size_bytes) 2 = Inr (Some track, track_bytes)"
    and g: "py_getitem data (p + 1 + size_bytes + track_bytes + 2) = Inr flag"
    by blast
  from read_ebml_size_width[OF s] have sb: "1 \<le> size_bytes" .
  from read_ebml_size_width[OF t] have tb: "1 \<le> track_bytes" .
  from loc(1) sb tb have "0 \<le> p + 1 + size_bytes + track_bytes + 2" by linarith
  from py_getitem_in_range[OF g this]
  have "p + 1 + size_bytes + track_bytes + 2 < int (length data)" by simp
  with sb tb have "p + 5 < int (length data)" by linarith
  with loc(1) e show ?thesis by simp
qed

theorem located_start_inside_buffer_witness:
  "find_last_webm_simple_block [163, 255, 129, 0, 0, 0] None = Some (Inr (Tuple 0 129))
   \<and> (0::int) \<le> 0 \<and> (0::int) + 5 < int (length [163, 255, 129, 0, 0, 0 :: byte])
   \<and> (0::int) + 5 < search_end [163, 255, 129, 0, 0, 0] None"
proof -
  have h: "find_last_webm_simple_block [163, 255, 129, 0, 0, 0] None = Some (Inr (Tuple 0 129))"
    by code_simp
  from located_start_inside_buffer[OF h] h show ?thesis by blast
qed

section \<open>The packet scan\<close>

lemma scan_packets_start_mono:
  assumes "sb1 \<le> sb2" and "k1 \<le> k2" and "k1 \<le> bp"
  shows "snd (snd (scan_packets sb1 ps (s1, bp, k1)))
         \<le> snd (snd (scan_packets sb2 ps (s2, bp, k2)))"
  using assms
proof (induction ps arbitrary: s1 s2 bp k1 k2)
  case Nil
  then show ?case by simp
next
  case (Cons p ps)
  let ?bp = "bp + int (size_pkt p)"
  have step: "bp \<le> ?bp" by simp
  show ?case
  proof (cases "is_keyframe p \<and> bp < sb1")
    case True
    with Cons.prems have "is_keyframe p \<and> bp < sb2" by simp
    with True Cons.IH[of bp bp ?bp "[] @ [p]" "[] @ [p]"] Cons.prems(1) step
    show ?thesis by simp
  next
    case False
    note not1 = False
    show ?thesis
    proof (cases "is_keyframe p \<and> bp < sb2")
      case True
      from Cons.prems(3) step have "k1 \<le> ?bp" by linarith
      with True not1 Cons.IH[of k1 bp ?bp "s1 @ [p]" "[] @ [p]"] Cons.prems
      show ?thesis by simp
    next
      case False
      from Cons.prems(3) step have "k1 \<le> ?bp" by linarith
      with False not1 Cons.IH[of k1 k2 ?bp "s1 @ [p]" "s2 @ [p]"] Cons.prems
      show ?thesis by auto
    qed
  qed
qed

lemma scan_packets_no_keyframe:
  "\<not> keyframe_before sb ps bp \<Longrightarrow>
   scan_packets sb ps (since, bp, k) = (since @ ps, bp + (\<Sum>p\<leftarrow>ps. int (size_pkt p)), k)"
  by (induction ps arbitrary: since bp) (auto simp: add.assoc)

text \<open>
  Claim C8. For every list of packets and every two split offsets with
  \<open>split_before1 < split_before2\<close>, the key-frame start found for the second is at least
  the one found for the first (\<open>-1\<close> standing for no key frame found).
\<close>

theorem key_frame_start_mono:
  assumes "split_before1 < split_before2"
  shows "key_frame_start split_before1 packets \<le> key_frame_start split_before2 packets"
proof -
  from assms have le: "split_before1 \<le> split_before2" by simp
  from scan_packets_start_mono[OF le, of "- 1" "- 1" 0 packets "[]" "[]"]
  show ?thesis by (simp add: key_frame_start_def select_packets_def)
qed

theorem key_frame_start_mono_witness:
  "(10::int) < 60
   \<and> key_frame_start 10
        [\<lparr>is_keyframe = True, size_pkt = 50, dts = Some 0, pts = Some 0\<rparr>,
         \<lparr>is_keyframe = True, size_pkt = 30, dts = Some 20, pts = Some 20\<rparr>,
         \<lparr>is_keyframe = False, size_pkt = 20, dts = Some 40, pts = Some 40\<rparr>]
     \<le> key_frame_start 60
        [\<lparr>is_keyframe = True, size_pkt = 50, dts = Some 0, pts = Some 0\<rparr>,
         \<lparr>is_keyframe = True, size_pkt = 30, dts = Some 20, pts = Some 20\<rparr>,
         \<lparr>is_keyframe = False, size_pkt = 20, dts = Some 40, pts = Some 40\<rparr>]
   \<and> key_frame_start 60
        [\<lparr>is_keyframe = True, size_pkt = 50, dts = Some 0, pts = Some 0\<rparr>,
         \<lparr>is_keyframe = True, size_pkt = 30, dts = Some 20, pts = Some 20\<rparr>,
         \<lparr>is_keyframe = False, size_pkt = 20, dts = Some 40, pts = Some 40\<rparr>] = 50"
proof -
  have h: "(10::int) < 60" by simp
  have v: "key_frame_start 60
        [\<lparr>is_keyframe = True, size_pkt = 50, dts = Some 0, pts = Some 0\<rparr>,
         \<lparr>is_keyframe = True, size_pkt = 30, dts = Some 20, pts = Some 20\<rparr>,
         \<lparr>is_keyframe = False, size_pkt = 20, dts = Some 40, pts = Some 40\<rparr>] = 50"
    by (simp add: key_frame_start_def select_packets_def)
  from key_frame_start_mono[OF h] h v show ?thesis by blast
qed

text \<open>
  Claim C1, as the code has it. No error is raised when no key frame starts before
  \<open>split_before\<close>: the value \<open>-1\<close> of \<^verbatim>\<open>key_frame_start\<close> is only logged. With
  \<open>split_before = 0\<close> no offset is below the split, yet the call below returns bytes.
\<close>

theorem no_keyframe_error_counterexample:
  "\<not> keyframe_before 0 [\<lparr>is_keyframe = True, size_pkt = 4, dts = Some 0, pts = Some 0\<rparr>] 0
   \<and> split_webm_buffer
        (\<lambda>usable. Some [\<lparr>is_keyframe = True, size_pkt = 4, dts = Some 0, pts = Some 0\<rparr>])
        (\<lambda>usable written. [163, 132, 129, 0, 0, 128, 28, 83])
        [163, 132, 129, 0, 0, 128] 0 False
      = Some (Inr [163, 132, 129, 0, 0, 128])"
  by code_simp

text \<open>
  Claim C1, amended: when no key frame starts at a byte offset below \<open>split_before\<close>,
  the scan raises nothing; it leaves \<^verbatim>\<open>key_frame_start\<close> at \<open>-1\<close> and keeps every packet,
  in order, so that the whole stream is written again.
\<close>

theorem no_keyframe_keeps_all_packets:
  assumes "\<not> keyframe_before split_before packets 0"
  shows "select_packets split_before packets
         = (packets, (\<Sum>p\<leftarrow>packets. int (size_pkt p)), - 1)"
  using scan_packets_no_keyframe[OF assms, of "[]" "- 1"]
  by (simp add: select_packets_def)

theorem no_keyframe_keeps_all_packets_witness:
  "\<not> keyframe_before 3
        [\<lparr>is_keyframe = False, size_pkt = 4, dts = Some 0, pts = Some 0\<rparr>,
         \<lparr>is_keyframe = True, size_pkt = 6, dts = Some 9, pts = Some 9\<rparr>] 0
   \<and> select_packets 3
        [\<lparr>is_keyframe = False, size_pkt = 4, dts = Some 0, pts = Some 0\<rparr>,
         \<lparr>is_keyframe = True, size_pkt = 6, dts = Some 9, pts = Some 9\<rparr>]
      = ([\<lparr>is_keyframe = False, size_pkt = 4, dts = Some 0, pts = Some 0\<rparr>,
          \<lparr>is_keyframe = True, size_pkt = 6, dts = Some 9, pts = Some 9\<rparr>], 10, - 1)"
proof -
  have h: "\<not> keyframe_before 3
        [\<lparr>is_keyframe = False, size_pkt = 4, dts = Some 0, pts = Some 0\<rparr>,
         \<lparr>is_keyframe = True, size_pkt = 6, dts = Some 9, pts = Some 9\<rparr>] 0"
    by simp
  from no_keyframe_keeps_all_packets[OF h] h show ?thesis by simp
qed

section \<open>Rebasing the timestamps\<close>

lemma rebase_loop_off: "rebase_loop False dts_start pts_start ps = Inr ps"
  by (induction ps) simp_all

lemma rebase_loop_on:
  assumes "\<forall>p\<in>set ps. dts p \<noteq> None \<longrightarrow> pts p \<noteq> None \<and> dts_start \<noteq> None \<and> pts_start \<noteq> None"
  shows "rebase_loop True dts_start pts_start ps
         = Inr (map (\<lambda>p. if dts p = None then p
                         else p\<lparr>dts := Some (the (dts p) - the dts_start),
                                pts := Some (the (pts p) - the pts_start)\<rparr>) ps)"
  using assms
proof (induction ps)
  case Nil
  show ?case by simp
next
  case (Cons p ps)
  from Cons.prems
  have "\<forall>p\<in>set ps. dts p \<noteq> None \<longrightarrow> pts p \<noteq> None \<and> dts_start \<noteq> None \<and> pts_start \<noteq> None"
    by simp
  note IH = Cons.IH[OF this]
  show ?case
  proof (cases "dts p = None")
    case True
    with IH show ?thesis by simp
  next
    case False
    with Cons.prems obtain a b c d where
      "dts p = Some a" "pts p = Some b" "dts_start = Some c" "pts_start = Some d"
      by auto
    with IH show ?thesis by (simp add: py_sub_def)
  qed
qed

text \<open>
  Claim C5, as the code has it. The test \<^verbatim>\<open>packet.dts is not None\<close> guards both
  assignments, so a \<^verbatim>\<open>pts\<close> that is present is left as it was when the \<^verbatim>\<open>dts\<close> of the same
  packet is absent: below, the second packet keeps \<open>pts = 50\<close> where the first packet's
  \<open>pts\<close> is 20.
\<close>

theorem rebase_pts_counterexample:
  "rebase_packets True
     [\<lparr>is_keyframe = True, size_pkt = 4, dts = Some 10, pts = Some 20\<rparr>,
      \<lparr>is_keyframe = True, size_pkt = 4, dts = None, pts = Some 50\<rparr>]
   = Inr [\<lparr>is_keyframe = True, size_pkt = 4, dts = Some 0, pts = Some 0\<rparr>,
          \<lparr>is_keyframe = True, size_pkt = 4, dts = None, pts = Some 50\<rparr>]"
  by (simp add: rebase_packets_def py_sub_def)

text \<open>
  Claim C5, amended. Take a non-empty selection in which every packet with a \<^verbatim>\<open>dts\<close>
  also has a \<^verbatim>\<open>pts\<close>, and in which the first packet has both as soon as any packet has a
  \<^verbatim>\<open>dts\<close>. With \<^verbatim>\<open>adjust_timestamps\<close>, every packet whose \<^verbatim>\<open>dts\<close> is present is written with
  its \<^verbatim>\<open>dts\<close> minus the first packet's \<^verbatim>\<open>dts\<close> and its \<^verbatim>\<open>pts\<close> minus the first packet's
  \<^verbatim>\<open>pts\<close>; every packet whose \<^verbatim>\<open>dts\<close> is absent is written unchanged; nothing is raised;
  the first packet, when it has a \<^verbatim>\<open>dts\<close>, is written with both timestamps 0. Without
  \<^verbatim>\<open>adjust_timestamps\<close> every packet is written unchanged.
\<close>

theorem rebase_packets_guarded_by_dts:
  assumes "packets \<noteq> []"
    and "\<forall>p\<in>set packets. dts p \<noteq> None \<longrightarrow>
           pts p \<noteq> None \<and> dts (hd packets) \<noteq> None \<and> pts (hd packets) \<noteq> None"
  shows "rebase_packets True packets
         = Inr (map (\<lambda>p. if dts p = None then p
                         else p\<lparr>dts := Some (the (dts p) - the (dts (hd packets))),
                                pts := Some (the (pts p) - the (pts (hd packets)))\<rparr>) packets)
       \<and> (\<forall>written. rebase_packets True packets = Inr written \<and> dts (hd packets) \<noteq> None \<longrightarrow>
             dts (hd written) = Some 0 \<and> pts (hd written) = Some 0)
       \<and> rebase_packets False packets = Inr packets"
proof -
  from assms(1) obtain first rest where ps: "packets = first # rest" by (cases packets) auto
  have on: "rebase_packets True packets
         = Inr (map (\<lambda>p. if dts p = None then p
                         else p\<lparr>dts := Some (the (dts p) - the (dts (hd packets))),
                                pts := Some (the (pts p) - the (pts (hd packets)))\<rparr>) packets)"
    using rebase_loop_on[OF assms(2)] ps by (simp add: rebase_packets_def)
  have off: "rebase_packets False packets = Inr packets"
    using ps by (simp add: rebase_packets_def rebase_loop_off)
  have zero: "\<forall>written. rebase_packets True packets = Inr written \<and> dts (hd packets) \<noteq> None \<longrightarrow>
             dts (hd written) = Some 0 \<and> pts (hd written) = Some 0"
    unfolding on using ps by auto
  from on zero off show ?thesis by blast
qed

theorem rebase_packets_guarded_by_dts_witness:
  "rebase_packets True
     [\<lparr>is_keyframe = True, size_pkt = 10, dts = Some 100, pts = Some 105\<rparr>,
      \<lparr>is_keyframe = False, size_pkt = 0, dts = None, pts = None\<rparr>,
      \<lparr>is_keyframe = False, size_pkt = 7, dts = Some 130, pts = Some 140\<rparr>]
   = Inr [\<lparr>is_keyframe = True, size_pkt = 10, dts = Some 0, pts = Some 0\<rparr>,
          \<lparr>is_keyframe = False, size_pkt = 0, dts = None, pts = None\<rparr>,
          \<lparr>is_keyframe = False, size_pkt = 7, dts = Some 30, pts = Some 35\<rparr>]
   \<and> rebase_packets False
     [\<lparr>is_keyframe = True, size_pkt = 10, dts = Some 100, pts = Some 105\<rparr>,
      \<lparr>is_keyframe = False, size_pkt = 0, dts = None, pts = None\<rparr>,
      \<lparr>is_keyframe = False, size_pkt = 7, dts = Some 130, pts = Some 140\<rparr>]
   = Inr [\<lparr>is_keyframe = True, size_pkt = 10, dts = Some 100, pts = Some 105\<rparr>,
      \<lparr>is_keyframe = False, size_pkt = 0, dts = None, pts = None\<rparr>,
      \<lparr>is_keyframe = False, size_pkt = 7, dts = Some 130, pts = Some 140\<rparr>]"
  using rebase_packets_guarded_by_dts
    [of "[\<lparr>is_keyframe = True, size_pkt = 10, dts = Some 100, pts = Some 105\<rparr>,
      \<lparr>is_keyframe = False, size_pkt = 0, dts = None, pts = None\<rparr>,
      \<lparr>is_keyframe = False, size_pkt = 7, dts = Some 130, pts = Some 140\<rparr>]"]
  by simp

section \<open>The outcome \<^verbatim>\<open>-1\<close> of the search\<close>

lemma find_loop_cycle:
  assumes "find_loop data l pos = Some r"
  shows "\<not> (data = [163, 0] \<and> l = 2 \<and> (pos = 2 \<or> pos = - 1))"
proof (rule find_loop.raw_induct
    [where P = "\<lambda>d e p r. \<not> (d = [163, 0] \<and> e = 2 \<and> (p = 2 \<or> p = - 1))", OF _ assms])
  fix f :: "bytes \<Rightarrow> int \<Rightarrow> int \<Rightarrow> (error + located) option" and d e p r
  assume IH: "\<And>d e p r. f d e p = Some r \<Longrightarrow> \<not> (d = [163, 0] \<and> e = 2 \<and> (p = 2 \<or> p = - 1))"
    and eq: "(let pos' = py_rfind d 163 p in
      if pos' = - 1 then Some (Inr Minus_One)
      else
        (case check_candidate d e pos' of
           Inl e \<Rightarrow> Some (Inl e)
         | Inr (Some r) \<Rightarrow> Some (Inr r)
         | Inr None \<Rightarrow> f d e (pos' - 1))) = Some r"
  show "\<not> (d = [163, 0] \<and> e = 2 \<and> (p = 2 \<or> p = - 1))"
  proof
    assume h: "d = [163, 0] \<and> e = 2 \<and> (p = 2 \<or> p = - 1)"
    have "py_rfind [163, 0] 163 2 = 0" and "py_rfind [163, 0] 163 (- 1) = 0"
      by code_simp+
    with h have rf: "py_rfind d 163 p = 0" by auto
    from h have cc: "check_candidate d e 0 = Inr None"
      by (simp add: check_candidate_def)
    from eq rf cc have "f d e (- 1) = Some r" by simp
    from IH[OF this] h show False by simp
  qed
qed

lemma last_index_below_less: "last_index_below data b k < int k"
  by (induction k) auto

lemma py_rfind_below_cursor:
  assumes "0 \<le> pos"
  shows "py_rfind data b pos < pos"
proof -
  have "py_rfind data b pos < int (py_bound (length data) pos)"
    by (simp add: py_rfind_def last_index_below_less)
  also from assms have "int (py_bound (length data) pos) \<le> pos"
    by (simp add: py_bound_def)
  finally show ?thesis .
qed

lemma find_loop_exit:
  "py_rfind data 163 pos = - 1 \<Longrightarrow> find_loop data l pos = Some (Inr Minus_One)"
  by (subst find_loop.simps) simp

lemma find_loop_accept:
  "py_rfind data 163 pos = c \<Longrightarrow> c \<noteq> - 1 \<Longrightarrow> check_candidate data l c = Inr (Some t) \<Longrightarrow>
   find_loop data l pos = Some (Inr t)"
  by (subst find_loop.simps) simp

lemma find_loop_reject:
  "py_rfind data 163 pos = c \<Longrightarrow> c \<noteq> - 1 \<Longrightarrow> check_candidate data l c = Inr None \<Longrightarrow>
   find_loop data l pos = find_loop data l (c - 1)"
  by (subst find_loop.simps) simp

text \<open>
  Away from index 0 the search does what its docstring says: when every marker is
  rejected and no marker sits at index 0, the cursor goes down to the start of the data
  and the bare \<open>-1\<close> is returned.
\<close>

lemma find_loop_all_rejected_nonneg:
  assumes rej: "\<And>p. 0 \<le> p \<Longrightarrow> p < int (length data) \<Longrightarrow> data ! nat p = 163 \<Longrightarrow>
                  check_candidate data l p = Inr None"
    and z: "data = [] \<or> data ! 0 \<noteq> 163"
  shows "0 \<le> pos \<Longrightarrow> find_loop data l pos = Some (Inr Minus_One)"
proof (induction "nat pos" arbitrary: pos rule: less_induct)
  case less
  let ?c = "py_rfind data 163 pos"
  show ?case
  proof (cases "?c = - 1")
    case True
    then show ?thesis by (rule find_loop_exit)
  next
    case False
    note found = py_rfind_found[OF False]
    from found(1,2) have ne: "data \<noteq> []" by auto
    have "?c \<noteq> 0"
    proof
      assume "?c = 0"
      with found(3) have "data ! 0 = 163" by simp
      with z ne show False by simp
    qed
    with found(1) have pos_c: "0 \<le> ?c - 1" by linarith
    from py_rfind_below_cursor[OF less.prems, of data 163]
    have "?c < pos" .
    with pos_c have "nat (?c - 1) < nat pos" by (simp add: nat_less_iff)
    from less.hyps[OF this pos_c]
    have "find_loop data l (?c - 1) = Some (Inr Minus_One)" .
    moreover from rej[OF found] have "check_candidate data l ?c = Inr None" .
    from find_loop_reject[OF refl False this]
    have "find_loop data l pos = find_loop data l (?c - 1)" .
    ultimately show ?thesis by simp
  qed
qed

lemma find_loop_all_rejected:
  assumes rej: "\<And>p. 0 \<le> p \<Longrightarrow> p < int (length data) \<Longrightarrow> data ! nat p = 163 \<Longrightarrow>
                  check_candidate data l p = Inr None"
    and z: "data = [] \<or> data ! 0 \<noteq> 163"
  shows "find_loop data l pos = Some (Inr Minus_One)"
proof (cases "py_rfind data 163 pos = - 1")
  case True
  then show ?thesis by (rule find_loop_exit)
next
  case False
  let ?c = "py_rfind data 163 pos"
  note found = py_rfind_found[OF False]
  from found(1,2) have ne: "data \<noteq> []" by auto
  have "?c \<noteq> 0"
  proof
    assume "?c = 0"
    with found(3) have "data ! 0 = 163" by simp
    with z ne show False by simp
  qed
  with found(1) have pos_c: "0 \<le> ?c - 1" by linarith
  have "find_loop data l (?c - 1) = Some (Inr Minus_One)"
  proof (rule find_loop_all_rejected_nonneg)
    show "0 \<le> ?c - 1" by (rule pos_c)
    show "data = [] \<or> data ! 0 \<noteq> 163" by (rule z)
    fix p :: int
    assume "0 \<le> p" and "p < int (length data)" and "data ! nat p = 163"
    then show "check_candidate data l p = Inr None" by (rule rej)
  qed
  moreover from rej[OF found] have "check_candidate data l ?c = Inr None" .
  from find_loop_reject[OF refl False this]
  have "find_loop data l pos = find_loop data l (?c - 1)" .
  ultimately show ?thesis by simp
qed

lemma all_rejected_returns_minus_one:
  assumes "\<And>p. 0 \<le> p \<Longrightarrow> p < int (length data) \<Longrightarrow> data ! nat p = 163 \<Longrightarrow>
             check_candidate data (search_end data end_arg) p = Inr None"
    and "data = [] \<or> data ! 0 \<noteq> 163"
  shows "find_last_webm_simple_block data end_arg = Some (Inr Minus_One)"
proof -
  let ?l = "search_end data end_arg"
  have "find_loop data ?l ?l = Some (Inr Minus_One)"
  proof (rule find_loop_all_rejected)
    show "data = [] \<or> data ! 0 \<noteq> 163" by (rule assms(2))
    fix p :: int
    assume "0 \<le> p" and "p < int (length data)" and "data ! nat p = 163"
    then show "check_candidate data ?l p = Inr None" by (rule assms(1))
  qed
  then show ?thesis by (simp add: find_last_webm_simple_block_def Let_def)
qed

text \<open>Whatever the data, a search that returns without a validated candidate returns \<open>-1\<close>.\<close>

lemma returned_without_candidate_is_minus_one:
  assumes rej: "\<And>p. 0 \<le> p \<Longrightarrow> p < int (length data) \<Longrightarrow> data ! nat p = 163 \<Longrightarrow>
             check_candidate data (search_end data end_arg) p = Inr None"
    and ret: "find_last_webm_simple_block data end_arg = Some (Inr r)"
  shows "r = Minus_One"
proof (cases r)
  case Minus_One
  then show ?thesis .
next
  case (Tuple p w)
  with ret have "find_last_webm_simple_block data end_arg = Some (Inr (Tuple p w))" by simp
  note loc = find_last_Tuple[OF this]
  from rej[OF loc(1) loc(2) loc(3)] loc(4) show ?thesis by simp
qed

text \<open>On success the result is the pair of the first candidate met that passes the checks.\<close>

lemma first_candidate_accepted:
  assumes "py_rfind data 163 (search_end data end_arg) = c" and "c \<noteq> - 1"
    and "check_candidate data (search_end data end_arg) c = Inr (Some t)"
  shows "find_last_webm_simple_block data end_arg = Some (Inr t)"
  using find_loop_accept[OF assms]
  by (simp add: find_last_webm_simple_block_def Let_def)

text \<open>Both call sites unpack two values, so the bare \<open>-1\<close> raises \<^verbatim>\<open>TypeError\<close> there.\<close>

lemma minus_one_unpack_TypeError:
  "find_last_webm_simple_block audio None = Some (Inr Minus_One) \<Longrightarrow>
     split_webm_buffer demux mux audio split_before adjust_timestamps = Some (Inl TypeError)"
  "find_last_webm_simple_block raw None = Some (Inr Minus_One) \<Longrightarrow>
     cut_cues raw extra_bytes = Some (Inl TypeError)"
  by (simp_all add: split_webm_buffer_def cut_cues_def)

lemma all_rejected_raises_TypeError:
  assumes "\<And>p. 0 \<le> p \<Longrightarrow> p < int (length audio) \<Longrightarrow> audio ! nat p = 163 \<Longrightarrow>
             check_candidate audio (int (length audio)) p = Inr None"
    and "audio = [] \<or> audio ! 0 \<noteq> 163"
  shows "split_webm_buffer demux mux audio split_before adjust_timestamps = Some (Inl TypeError)"
proof -
  have l: "search_end audio None = int (length audio)" by (simp add: search_end_def)
  have "find_last_webm_simple_block audio None = Some (Inr Minus_One)"
  proof (rule all_rejected_returns_minus_one)
    show "audio = [] \<or> audio ! 0 \<noteq> 163" by (rule assms(2))
    fix p :: int
    assume "0 \<le> p" and "p < int (length audio)" and "audio ! nat p = 163"
    then have "check_candidate audio (int (length audio)) p = Inr None" by (rule assms(1))
    then show "check_candidate audio (search_end audio None) p = Inr None" by (simp only: l)
  qed
  then show ?thesis by (rule minus_one_unpack_TypeError(1))
qed

lemma header_only_example:
  "find_last_webm_simple_block [26, 69, 223, 163, 159] None = Some (Inr Minus_One)
   \<and> split_webm_buffer (\<lambda>usable. None) (\<lambda>usable written. []) [26, 69, 223, 163, 159] 0 False
       = Some (Inl TypeError)
   \<and> cut_cues [26, 69, 223, 163, 159] [1, 2] = Some (Inl TypeError)"
  by code_simp

text \<open>A rejected marker at index 0 sends the cursor to \<open>-1\<close>, and from there back to 0.\<close>

lemma find_loop_wraps:
  assumes rf: "py_rfind d 163 (- 1) = 0" and cc: "check_candidate d e 0 = Inr None"
  shows "find_loop d e (- 1) = None"
proof (cases "find_loop d e (- 1)")
  case None
  then show ?thesis .
next
  case (Some r)
  have "\<not> (d = d \<and> e = e \<and> (- 1 :: int) = - 1)"
  proof (rule find_loop.raw_induct
      [where P = "\<lambda>d' e' p r. \<not> (d' = d \<and> e' = e \<and> p = - 1)", OF _ Some])
    fix f :: "bytes \<Rightarrow> int \<Rightarrow> int \<Rightarrow> (error + located) option" and d' e' p r
    assume IH: "\<And>d' e' p r. f d' e' p = Some r \<Longrightarrow> \<not> (d' = d \<and> e' = e \<and> p = - 1)"
      and eq: "(let pos' = py_rfind d' 163 p in
        if pos' = - 1 then Some (Inr Minus_One)
        else
          (case check_candidate d' e' pos' of
             Inl e \<Rightarrow> Some (Inl e)
           | Inr (Some r) \<Rightarrow> Some (Inr r)
           | Inr None \<Rightarrow> f d' e' (pos' - 1))) = Some r"
    show "\<not> (d' = d \<and> e' = e \<and> p = - 1)"
    proof
      assume h: "d' = d \<and> e' = e \<and> p = - 1"
      with eq rf cc have "f d e (- 1) = Some r" by simp
      from IH[OF this] show False by simp
    qed
  qed
  then show ?thesis by simp
qed

text \<open>
  Claim C9. The claim says that, when no candidate passes the checks, the search returns
  the bare \<open>-1\<close> and the caller of \<^verbatim>\<open>split_webm_buffer\<close> sees \<^verbatim>\<open>TypeError\<close>. In the seven
  bytes below the only marker is at index 0 and it is rejected, its flag byte being
  \<open>0x01\<close>; the search then never returns, so neither does \<^verbatim>\<open>split_webm_buffer\<close>, and no
  \<^verbatim>\<open>TypeError\<close> reaches the caller.
\<close>

theorem rejected_marker_at_start_never_surfaces:
  "py_rfind [163, 129, 129, 0, 0, 1, 0] 163 7 = 0
   \<and> check_candidate [163, 129, 129, 0, 0, 1, 0] 7 0 = Inr None
   \<and> find_last_webm_simple_block [163, 129, 129, 0, 0, 1, 0] None = None
   \<and> split_webm_buffer (\<lambda>usable. None) (\<lambda>usable written. []) [163, 129, 129, 0, 0, 1, 0] 0 False
       = None"
proof -
  have rf: "py_rfind [163, 129, 129, 0, 0, 1, 0] 163 7 = 0" by code_simp
  have rw: "py_rfind [163, 129, 129, 0, 0, 1, 0] 163 (- 1) = 0" by code_simp
  have cc: "check_candidate [163, 129, 129, 0, 0, 1, 0] 7 0 = Inr None" by code_simp
  have "(0::int) \<noteq> - 1" by simp
  from find_loop_reject[OF rf this cc] find_loop_wraps[OF rw cc]
  have "find_loop [163, 129, 129, 0, 0, 1, 0] 7 7 = None" by simp
  then have fl: "find_last_webm_simple_block [163, 129, 129, 0, 0, 1, 0] None = None"
    by (simp add: find_last_webm_simple_block_def search_end_def)
  then have "split_webm_buffer (\<lambda>usable. None) (\<lambda>usable written. [])
               [163, 129, 129, 0, 0, 1, 0] 0 False = None"
    by (simp add: split_webm_buffer_def)
  with rf cc fl show ?thesis by simp
qed

text \<open>
  Claim C10. An \<^verbatim>\<open>end\<close> of 0 is falsy, so the search end is the length of the data, as it
  is for \<^verbatim>\<open>None\<close>: the two calls are the same search, over the whole buffer.
\<close>

theorem end_zero_is_default:
  "find_last_webm_simple_block data (Some 0) = find_last_webm_simple_block data None
   \<and> search_end data (Some 0) = int (length data)
   \<and> find_last_webm_simple_block data (Some 0)
       = find_loop data (int (length data)) (int (length data))"
  by (simp add: find_last_webm_simple_block_def search_end_def Let_def)

lemma end_zero_example:
  "find_last_webm_simple_block [163, 133, 129, 17, 34, 128] (Some 0) = Some (Inr (Tuple 0 7))"
  by code_simp

section \<open>The mask of the first byte\<close>

lemma read_ebml_size_one_byte: "read_ebml_size [130] 0 1 = Inr (Some 2, 1)"
  by code_simp

lemma read_ebml_size_too_wide: "read_ebml_size [64, 0] 0 1 = Inr (None, 2)"
  by code_simp

text \<open>
  Claim C2. A two-byte field has two marker bits, \<open>01\<close>, and fourteen value bits. The code
  masks the first byte with \<^verbatim>\<open>0xFF >> (num_bytes + 1)\<close>, which is \<open>0x1F\<close> for two bytes, so
  it drops bit 5 of the first byte as well: the field \<open>0x60 0x00\<close>, whose value is 8192,
  is read as 0.
\<close>

theorem two_byte_mask_drops_a_bit:
  "read_ebml_size [96, 0] 0 2 = Inr (Some 0, 2)
   \<and> spec_size_value 2 [96, 0] = 8192"
  by code_simp

text \<open>
  Claim C7. The search does not always return. When the candidate at index 0 is rejected
  the cursor becomes \<open>-1\<close>, which \<^verbatim>\<open>rfind\<close> takes as an end counted from the end of the
  data, so the search starts again near the end and meets the same candidates for ever:
  on the two bytes \<open>0xA3 0x00\<close> the loop never returns.
\<close>

theorem search_never_returns:
  "find_last_webm_simple_block [163, 0] None = None"
proof (cases "find_last_webm_simple_block [163, 0] None")
  case None
  then show ?thesis .
next
  case (Some r)
  then have "find_loop [163, 0] 2 2 = Some r"
    by (simp add: find_last_webm_simple_block_def search_end_def)
  from find_loop_cycle[OF this] show ?thesis by simp
qed

end
